theory Spec2Isabelle
  imports Main "HOL-Library.Char_ord" "HOL-Library.List_Lexorder" "HOL-Library.Multiset"
begin

unbundle bit_operations_syntax

section \<open>Preference values\<close>

text \<open>
  The scripts under \<^verbatim>\<open>test-data/\<close> work on what \<^verbatim>\<open>json.load\<close> returns: \<^verbatim>\<open>None\<close>,
  \<^verbatim>\<open>bool\<close>, \<^verbatim>\<open>int\<close>, \<^verbatim>\<open>float\<close>, \<^verbatim>\<open>str\<close>, \<^verbatim>\<open>list\<close> and \<^verbatim>\<open>dict\<close>.

  \<^item> A Python \<^verbatim>\<open>str\<close> is modelled by its UTF-8 encoding, a \<^typ>\<open>string\<close> of 8-bit
    characters. Concatenation, splitting at \<^verbatim>\<open>.\<close>, the JSON escapes of
    \<^verbatim>\<open>ensure_ascii=False\<close> (all of them ASCII) and the code-point order used by
    \<^verbatim>\<open>sorted\<close> are the same on both sides, and \<^verbatim>\<open>s.encode('utf-8')\<close> is the identity.
  \<^item> A Python \<^verbatim>\<open>int\<close> is an \<^typ>\<open>int\<close>.
  \<^item> A \<^verbatim>\<open>float\<close> is never computed with, only printed: it is carried as the text
    \<^verbatim>\<open>float.__repr__\<close> gives for it (\<^verbatim>\<open>1.5\<close>, \<^verbatim>\<open>1e+16\<close>, \<^verbatim>\<open>nan\<close>, \<^verbatim>\<open>inf\<close>, \<^verbatim>\<open>-inf\<close>).
  \<^item> A \<^verbatim>\<open>dict\<close> is the list of its items in insertion order. A dict has each key once,
    so the lists the code can receive are those with \<open>distinct (map fst kvs)\<close>.
\<close>

datatype json =
    JNull
  | JBool bool
  | JInt int
  | JFloat string
  | JStr string
  | JList "json list"
  | JDict "(string \<times> json) list"

text \<open>\<^verbatim>\<open>d.get(k)\<close>: the value under \<open>k\<close>, and \<^verbatim>\<open>None\<close> when the key is missing.\<close>

definition dict_get :: "(string \<times> json) list \<Rightarrow> string \<Rightarrow> json" where
  "dict_get kvs k = (case map_of kvs k of None \<Rightarrow> JNull | Some v \<Rightarrow> v)"

section \<open>Printing: \<^verbatim>\<open>str\<close> and \<^verbatim>\<open>json.dumps\<close>\<close>

definition hex_lower :: "nat \<Rightarrow> char" where
  "hex_lower n = ''0123456789abcdef'' ! n"

definition digit_char :: "nat \<Rightarrow> char" where
  "digit_char n = ''0123456789'' ! n"

function str_nat :: "nat \<Rightarrow> string" where
  "str_nat n = (if n < 10 then [digit_char n] else str_nat (n div 10) @ [digit_char (n mod 10)])"
  by pat_completeness auto
termination
  by (relation "measure id") auto

declare str_nat.simps [simp del]

text \<open>\<^verbatim>\<open>str(i)\<close> for an int.\<close>

definition str_int :: "int \<Rightarrow> string" where
  "str_int i = (if i < 0 then ''-'' @ str_nat (nat (- i)) else str_nat (nat i))"

text \<open>
  The float printer of \<^verbatim>\<open>json.dumps\<close> (\<^verbatim>\<open>floatstr\<close> in \<^verbatim>\<open>json.encoder\<close>):
  \<^verbatim>\<open>float.__repr__\<close>, except for the three values JSON has no notation for.
\<close>

definition floatstr :: "string \<Rightarrow> string" where
  "floatstr r =
     (if r = ''nan'' then ''NaN''
      else if r = ''inf'' then ''Infinity''
      else if r = ''-inf'' then ''-Infinity''
      else r)"

text \<open>
  The string printer of \<^verbatim>\<open>json.dumps(..., ensure_ascii=False)\<close>
  (\<^verbatim>\<open>encode_basestring\<close>): backslash, double quote and the control characters below
  0x20 are escaped, everything else is kept.
\<close>

definition escape_char :: "char \<Rightarrow> string" where
  "escape_char c =
     (if c = CHR 0x5C then [CHR 0x5C, CHR 0x5C]
      else if c = CHR 0x22 then [CHR 0x5C, CHR 0x22]
      else if c = CHR 0x08 then [CHR 0x5C, CHR ''b'']
      else if c = CHR 0x0C then [CHR 0x5C, CHR ''f'']
      else if c = CHR 0x0A then [CHR 0x5C, CHR ''n'']
      else if c = CHR 0x0D then [CHR 0x5C, CHR ''r'']
      else if c = CHR 0x09 then [CHR 0x5C, CHR ''t'']
      else if (of_char c :: nat) < 32
        then [CHR 0x5C, CHR ''u'', CHR ''0'', CHR ''0'',
              hex_lower (of_char c div 16), hex_lower (of_char c mod 16)]
      else [c])"

definition encode_basestring :: "string \<Rightarrow> string" where
  "encode_basestring s = [CHR 0x22] @ concat (map escape_char s) @ [CHR 0x22]"

text \<open>\<^verbatim>\<open>sep.join(parts)\<close>.\<close>

fun join :: "string \<Rightarrow> string list \<Rightarrow> string" where
  "join sep [] = []"
| "join sep [p] = p"
| "join sep (p # q # ps) = p @ sep @ join sep (q # ps)"

text \<open>
  \<^verbatim>\<open>json.dumps(obj, separators=(item_sep, key_sep), ensure_ascii=False)\<close>. A dict is
  printed in its insertion order (\<^verbatim>\<open>sort_keys\<close> is left at its default); the keys are
  strings.
\<close>

fun json_dumps :: "string \<times> string \<Rightarrow> json \<Rightarrow> string" where
  "json_dumps seps JNull = ''null''"
| "json_dumps seps (JBool b) = (if b then ''true'' else ''false'')"
| "json_dumps seps (JInt i) = str_int i"
| "json_dumps seps (JFloat r) = floatstr r"
| "json_dumps seps (JStr s) = encode_basestring s"
| "json_dumps seps (JList xs) = ''['' @ join (fst seps) (map (json_dumps seps) xs) @ '']''"
| "json_dumps seps (JDict kvs) =
     ''{'' @ join (fst seps)
              (map (\<lambda>(k, v). encode_basestring k @ snd seps @ json_dumps seps v) kvs) @ ''}''"

section \<open>SHA-256 and HMAC\<close>

text \<open>
  \<^verbatim>\<open>hashlib.sha256\<close> and \<^verbatim>\<open>hmac.new(key, msg, hashlib.sha256)\<close> of the Python library,
  after FIPS 180-4 and RFC 2104. A byte is a \<^typ>\<open>nat\<close> below 256 and a 32-bit word a
  \<^typ>\<open>nat\<close> below \<open>2 ^ 32\<close>, every addition reduced modulo \<open>2 ^ 32 = 4294967296\<close>.
\<close>

definition rotr :: "nat \<Rightarrow> nat \<Rightarrow> nat" where
  "rotr n x = x div 2 ^ n + (x mod 2 ^ n) * 2 ^ (32 - n)"

definition not32 :: "nat \<Rightarrow> nat" where
  "not32 x = 4294967295 - x"

definition Ch :: "nat \<Rightarrow> nat \<Rightarrow> nat \<Rightarrow> nat" where
  "Ch x y z = (x AND y) XOR (not32 x AND z)"

definition Maj :: "nat \<Rightarrow> nat \<Rightarrow> nat \<Rightarrow> nat" where
  "Maj x y z = (x AND y) XOR (x AND z) XOR (y AND z)"

definition Sigma0 :: "nat \<Rightarrow> nat" where
  "Sigma0 x = rotr 2 x XOR rotr 13 x XOR rotr 22 x"

definition Sigma1 :: "nat \<Rightarrow> nat" where
  "Sigma1 x = rotr 6 x XOR rotr 11 x XOR rotr 25 x"

definition sigma0 :: "nat \<Rightarrow> nat" where
  "sigma0 x = rotr 7 x XOR rotr 18 x XOR x div 2 ^ 3"

definition sigma1 :: "nat \<Rightarrow> nat" where
  "sigma1 x = rotr 17 x XOR rotr 19 x XOR x div 2 ^ 10"

text \<open>
  The sixty-four round constants and the initial hash value of FIPS 180-4, in decimal.
\<close>

definition K256 :: "nat list" where
  "K256 =
     [1116352408, 1899447441, 3049323471, 3921009573, 961987163, 1508970993,
      2453635748, 2870763221, 3624381080, 310598401, 607225278, 1426881987,
      1925078388, 2162078206, 2614888103, 3248222580, 3835390401, 4022224774,
      264347078, 604807628, 770255983, 1249150122, 1555081692, 1996064986,
      2554220882, 2821834349, 2952996808, 3210313671, 3336571891, 3584528711,
      113926993, 338241895, 666307205, 773529912, 1294757372, 1396182291, 1695183700,
      1986661051, 2177026350, 2456956037, 2730485921, 2820302411, 3259730800,
      3345764771, 3516065817, 3600352804, 4094571909, 275423344, 430227734,
      506948616, 659060556, 883997877, 958139571, 1322822218, 1537002063, 1747873779,
      1955562222, 2024104815, 2227730452, 2361852424, 2428436474, 2756734187,
      3204031479, 3329325298]"

definition H256 :: "nat list" where
  "H256 =
     [1779033703, 3144134277, 1013904242, 2773480762, 1359893119, 2600822924,
      528734635, 1541459225]"

text \<open>
  The message schedule as a window of the last sixteen words: \<open>w ! 0\<close> is the word of the
  current round, and the word sixteen rounds ahead is computed from the window.
\<close>

definition next_w :: "nat list \<Rightarrow> nat" where
  "next_w w = (sigma1 (w ! 14) + w ! 9 + sigma0 (w ! 1) + w ! 0) mod 4294967296"

fun round :: "nat \<Rightarrow> nat \<Rightarrow> nat list \<Rightarrow> nat list" where
  "round k w [a, b, c, d, e, f, g, h] =
     (let t1 = (h + Sigma1 e + Ch e f g + k + w) mod 4294967296;
          t2 = (Sigma0 a + Maj a b c) mod 4294967296
      in [(t1 + t2) mod 4294967296, a, b, c, (d + t1) mod 4294967296, e, f, g])"
| "round k w s = s"

fun rounds :: "nat list \<Rightarrow> nat list \<Rightarrow> nat list \<Rightarrow> nat list" where
  "rounds [] w s = s"
| "rounds (k # ks) w s = rounds ks (tl w @ [next_w w]) (round k (hd w) s)"

function chunks :: "nat \<Rightarrow> 'a list \<Rightarrow> 'a list list" where
  "chunks n xs = (if n = 0 \<or> xs = [] then [] else take n xs # chunks n (drop n xs))"
  by pat_completeness auto
termination
  by (relation "measure (\<lambda>(n, xs). length xs)") auto

declare chunks.simps [simp del]

definition be32 :: "nat list \<Rightarrow> nat" where
  "be32 bs = foldl (\<lambda>acc b. acc * 256 + b) 0 bs"

definition compress :: "nat list \<Rightarrow> nat list \<Rightarrow> nat list" where
  "compress hs block =
     map2 (\<lambda>h s. (h + s) mod 4294967296) hs (rounds K256 (map be32 (chunks 4 block)) hs)"

text \<open>Padding: 0x80, zeros up to 56 modulo 64, then the bit length as eight bytes.\<close>

definition pad :: "nat list \<Rightarrow> nat list" where
  "pad m =
     m @ [128] @ replicate ((119 - length m mod 64) mod 64) 0
       @ map (\<lambda>e. (8 * length m) div 256 ^ e mod 256) [7, 6, 5, 4, 3, 2, 1, 0]"

definition bytes_of_word :: "nat \<Rightarrow> nat list" where
  "bytes_of_word w = map (\<lambda>e. w div 256 ^ e mod 256) [3, 2, 1, 0]"

definition sha256 :: "nat list \<Rightarrow> nat list" where
  "sha256 m = concat (map bytes_of_word (foldl compress H256 (chunks 64 (pad m))))"

text \<open>
  \<^verbatim>\<open>hmac.new(key, msg, hashlib.sha256).digest()\<close>: a key longer than the block of 64
  bytes is hashed first, then padded with zeros to the block.
\<close>

definition hmac_new :: "nat list \<Rightarrow> nat list \<Rightarrow> nat list" where
  "hmac_new key msg =
     (let k0 = (if length key > 64 then sha256 key else key);
          k = k0 @ replicate (64 - length k0) 0
      in sha256 (map (\<lambda>b. b XOR 92) k @ sha256 (map (\<lambda>b. b XOR 54) k @ msg)))"

text \<open>\<^verbatim>\<open>.hexdigest()\<close>: two lowercase hexadecimal digits for each byte.\<close>

definition hexdigest :: "nat list \<Rightarrow> string" where
  "hexdigest bs = concat (map (\<lambda>b. [hex_lower (b div 16), hex_lower (b mod 16)]) bs)"

text \<open>\<^verbatim>\<open>.upper()\<close>, on the ASCII letters (a digest has no other letters).\<close>

definition upper_char :: "char \<Rightarrow> char" where
  "upper_char c =
     (case map_of (zip ''abcdefghijklmnopqrstuvwxyz'' ''ABCDEFGHIJKLMNOPQRSTUVWXYZ'') c of
        None \<Rightarrow> c
      | Some u \<Rightarrow> u)"

definition upper :: "string \<Rightarrow> string" where
  "upper s = map upper_char s"

text \<open>\<^verbatim>\<open>s.encode('utf-8')\<close>: the bytes of the string.\<close>

definition encode_utf8 :: "string \<Rightarrow> nat list" where
  "encode_utf8 s = map of_char s"

section \<open>\<^verbatim>\<open>analyze-json.py\<close>: canonical form\<close>

text \<open>\<^verbatim>\<open>isinstance(v, dict) and len(v) == 0\<close>, or the same for a list.\<close>

fun is_empty_container :: "json \<Rightarrow> bool" where
  "is_empty_container (JDict kvs) = (length kvs = 0)"
| "is_empty_container (JList xs) = (length xs = 0)"
| "is_empty_container _ = False"

text \<open>
  \<^verbatim>\<open>prune_empty_recursive\<close>. The loop \<^verbatim>\<open>for k in sorted(obj.keys())\<close> reads \<^verbatim>\<open>obj[k]\<close>:
  it visits the items in key order, which for a dict (each key once) is the stable sort
  of the items by key. An item whose pruned value is an empty dict or list is skipped
  (\<^verbatim>\<open>continue\<close>); list items are all kept.
\<close>

fun prune_empty_recursive :: "json \<Rightarrow> json" where
  "prune_empty_recursive (JDict kvs) =
     JDict (filter (\<lambda>(k, v). \<not> is_empty_container v)
              (map (\<lambda>(k, v). (k, prune_empty_recursive v)) (sort_key fst kvs)))"
| "prune_empty_recursive (JList xs) = JList (map prune_empty_recursive xs)"
| "prune_empty_recursive obj = obj"

text \<open>
  \<^verbatim>\<open>value_to_json_chromium\<close>, branch by branch. \<^verbatim>\<open>bool\<close> is tested before the
  numbers (a Python bool is an int); \<^verbatim>\<open>str(value)\<close> of a float is its repr. The last
  \<^verbatim>\<open>else\<close> of the source is reached by no value of \<^verbatim>\<open>json.load\<close>.
\<close>

fun value_to_json_chromium :: "json \<Rightarrow> string" where
  "value_to_json_chromium JNull = ''''"
| "value_to_json_chromium (JBool b) = (if b then ''true'' else ''false'')"
| "value_to_json_chromium (JList xs) =
     (if length xs = 0 then ''[]''
      else json_dumps ('','', '':'') (prune_empty_recursive (JList xs)))"
| "value_to_json_chromium (JDict kvs) =
     json_dumps ('','', '':'') (prune_empty_recursive (JDict kvs))"
| "value_to_json_chromium (JStr s) = json_dumps ('','', '':'') (JStr s)"
| "value_to_json_chromium (JInt i) = str_int i"
| "value_to_json_chromium (JFloat r) = r"

section \<open>\<^verbatim>\<open>analyze-json.py\<close>: dotted paths\<close>

text \<open>\<^verbatim>\<open>s.split(sep)\<close> for a one-character separator: never the empty list.\<close>

fun str_split :: "char \<Rightarrow> string \<Rightarrow> string list" where
  "str_split sep [] = [[]]"
| "str_split sep (c # cs) =
     (if c = sep then [] # str_split sep cs
      else (case str_split sep cs of
              [] \<Rightarrow> [[c]]
            | p # ps \<Rightarrow> (c # p) # ps))"

text \<open>
  The loop of \<^verbatim>\<open>get_value_at_path\<close> over the parts, \<open>current\<close> being the loop
  variable. Nothing in it raises: every exit is a \<^verbatim>\<open>return\<close>.
\<close>

fun walk_parts :: "json \<Rightarrow> string list \<Rightarrow> json" where
  "walk_parts current [] = current"
| "walk_parts current (part # parts) =
     (if current = JNull then JNull
      else (case current of
              JDict kvs \<Rightarrow> walk_parts (dict_get kvs part) parts
            | _ \<Rightarrow> JNull))"

definition get_value_at_path :: "json \<Rightarrow> string \<Rightarrow> json" where
  "get_value_at_path obj path = walk_parts obj (str_split CHR ''.'' path)"

section \<open>\<^verbatim>\<open>analyze-json.py\<close>: the MAC\<close>

definition hmac_sha256 :: "string \<Rightarrow> string \<Rightarrow> string" where
  "hmac_sha256 key message = upper (hexdigest (hmac_new (encode_utf8 key) (encode_utf8 message)))"

definition calculate_mac :: "string \<Rightarrow> string \<Rightarrow> string \<Rightarrow> json \<Rightarrow> string" where
  "calculate_mac seed device_id path v =
     (let value_json = value_to_json_chromium v;
          message = device_id @ path @ value_json
      in hmac_sha256 seed message)"

text \<open>
  One turn of the loop of \<^verbatim>\<open>main\<close> over \<^verbatim>\<open>browser_state['file_macs'].items()\<close>, for
  a record that is not skipped (its path is not \<^verbatim>\<open>_description\<close> and passes the filter
  of the command line): the value is looked up, its MAC is calculated and compared with
  \<^verbatim>\<open>==\<close> to the expected one. \<open>True\<close> is \<^verbatim>\<open>[PASS]\<close>, \<open>False\<close> is \<^verbatim>\<open>[FAIL]\<close>.
\<close>

definition main_check :: "string \<Rightarrow> string \<Rightarrow> json \<Rightarrow> string \<Rightarrow> string \<Rightarrow> bool" where
  "main_check seed device_id secure_prefs path expected_mac =
     (let v = get_value_at_path secure_prefs path;
          calculated_mac = calculate_mac seed device_id path v
      in calculated_mac = expected_mac)"

section \<open>\<^verbatim>\<open>find-mac-keys.py\<close>: the key-sorting transform\<close>

text \<open>
  \<^verbatim>\<open>sort_dict_recursive\<close>: \<^verbatim>\<open>sorted\<close> over the (key, value) tuples. The keys of a dict
  differ pairwise, so the tuple comparison is decided by the keys alone.
\<close>

fun sort_dict_recursive :: "json \<Rightarrow> json" where
  "sort_dict_recursive (JDict kvs) =
     JDict (sort_key fst (map (\<lambda>(k, v). (k, sort_dict_recursive v)) kvs))"
| "sort_dict_recursive (JList xs) = JList (map sort_dict_recursive xs)"
| "sort_dict_recursive obj = obj"

text \<open>
  \<^verbatim>\<open>calc_mac\<close>, with the globals \<^verbatim>\<open>FILE_SEED\<close>, \<^verbatim>\<open>DEVICE_ID\<close> and \<^verbatim>\<open>PATH\<close> of the script
  as parameters.
\<close>

definition calc_mac :: "string \<Rightarrow> string \<Rightarrow> string \<Rightarrow> json \<Rightarrow> string" where
  "calc_mac file_seed device_id path val =
     (let sorted_val = sort_dict_recursive val;
          json_str = json_dumps ('','', '':'') sorted_val
      in hmac_sha256 file_seed (device_id @ path @ json_str))"


section \<open>Definitions used to state the properties\<close>

text \<open>
  Path resolution with a typed result, as the interface description words it: \<open>None\<close> is
  ``value absent'', \<open>Some JNull\<close> is ``value is Null''. It is the yardstick that
  \<open>get_value_at_path\<close> is compared with, not a function of the scripts.
\<close>

fun lookup_path :: "json \<Rightarrow> string list \<Rightarrow> json option" where
  "lookup_path v [] = Some v"
| "lookup_path (JDict kvs) (part # parts) =
     (case map_of kvs part of None \<Rightarrow> None | Some v \<Rightarrow> lookup_path v parts)"
| "lookup_path v (part # parts) = None"

text \<open>No dict anywhere in the value has an item whose value is an empty dict or list.\<close>

fun no_empty_entry :: "json \<Rightarrow> bool" where
  "no_empty_entry (JDict kvs) =
     list_all (\<lambda>kv. \<not> is_empty_container (snd kv) \<and> no_empty_entry (snd kv)) kvs"
| "no_empty_entry (JList xs) = list_all no_empty_entry xs"
| "no_empty_entry v = True"

section \<open>The digest: length and alphabet\<close>

lemma length_round: "length (round k w s) = length s"
  by (induction k w s rule: round.induct) (simp_all add: Let_def)

lemma length_rounds: "length (rounds ks w s) = length s"
  by (induction ks arbitrary: w s) (simp_all add: length_round)

lemma length_compress: "length (compress hs block) = length hs"
  by (simp add: compress_def length_rounds)

lemma length_foldl_compress: "length (foldl compress hs blocks) = length hs"
  by (induction blocks arbitrary: hs) (simp_all add: length_compress)

lemma length_bytes_of_word: "length (bytes_of_word w) = 4"
  by (simp add: bytes_of_word_def)

lemma length_concat_bytes: "length (concat (map bytes_of_word ws)) = 4 * length ws"
  by (induction ws) (simp_all add: length_bytes_of_word)

lemma length_sha256: "length (sha256 m) = 32"
  by (simp add: sha256_def length_concat_bytes length_foldl_compress H256_def)

lemma bytes_of_word_bound: "b \<in> set (bytes_of_word w) \<Longrightarrow> b < 256"
  by (auto simp: bytes_of_word_def)

lemma sha256_bytes: "b \<in> set (sha256 m) \<Longrightarrow> b < 256"
  by (auto simp: sha256_def dest: bytes_of_word_bound)

lemma length_hmac_new: "length (hmac_new key msg) = 32"
  by (simp add: hmac_new_def Let_def length_sha256)

lemma hmac_new_bytes: "b \<in> set (hmac_new key msg) \<Longrightarrow> b < 256"
  unfolding hmac_new_def Let_def by (rule sha256_bytes)

lemma length_hexdigest: "length (hexdigest bs) = 2 * length bs"
  by (induction bs) (simp_all add: hexdigest_def)

lemma hex_lower_digit: "n < 16 \<Longrightarrow> hex_lower n \<in> set ''0123456789abcdef''"
  unfolding hex_lower_def by (rule nth_mem) simp

lemma upper_hex_table: "map upper_char ''0123456789abcdef'' = ''0123456789ABCDEF''"
  by (simp add: upper_char_def)

lemma upper_hex_digit:
  assumes "c \<in> set ''0123456789abcdef''"
  shows "upper_char c \<in> set ''0123456789ABCDEF''"
proof -
  have "upper_char c \<in> upper_char ` set ''0123456789abcdef''"
    using assms by (rule imageI)
  then have "upper_char c \<in> set (map upper_char ''0123456789abcdef'')"
    by (simp only: set_map)
  then show ?thesis
    by (simp only: upper_hex_table)
qed

lemma hexdigest_chars:
  assumes "\<forall>b \<in> set bs. b < 256" and "c \<in> set (hexdigest bs)"
  shows "c \<in> set ''0123456789abcdef''"
proof -
  from assms(2) obtain b where b: "b \<in> set bs"
    and c: "c = hex_lower (b div 16) \<or> c = hex_lower (b mod 16)"
    by (auto simp: hexdigest_def)
  have "b < 16 * 16" using assms(1) b by simp
  then have d1: "b div 16 < 16" by (rule less_mult_imp_div_less)
  have d2: "b mod 16 < 16" by simp
  from c show ?thesis
  proof
    assume e: "c = hex_lower (b div 16)"
    show ?thesis unfolding e using d1 by (rule hex_lower_digit)
  next
    assume e: "c = hex_lower (b mod 16)"
    show ?thesis unfolding e using d2 by (rule hex_lower_digit)
  qed
qed

lemma length_hmac_sha256: "length (hmac_sha256 key message) = 64"
  by (simp add: hmac_sha256_def upper_def length_hexdigest length_hmac_new)

lemma hmac_sha256_chars:
  assumes "c \<in> set (hmac_sha256 key message)"
  shows "c \<in> set ''0123456789ABCDEF''"
proof -
  from assms obtain d
    where d: "d \<in> set (hexdigest (hmac_new (encode_utf8 key) (encode_utf8 message)))"
      and c: "c = upper_char d"
    by (auto simp: hmac_sha256_def upper_def)
  have "\<forall>b \<in> set (hmac_new (encode_utf8 key) (encode_utf8 message)). b < 256"
    by (blast intro: hmac_new_bytes)
  then have "d \<in> set ''0123456789abcdef''"
    using d by (rule hexdigest_chars)
  then show ?thesis
    unfolding c by (rule upper_hex_digit)
qed

text \<open>The padded message is a whole number of 64-byte blocks, of sixteen words each.\<close>

lemma pad_zeros:
  assumes "r < (64::nat)"
  shows "(r + (9 + (119 - r) mod 64)) mod 64 = 0"
proof (cases "r \<le> 55")
  case True
  then have "119 - r = 64 + (55 - r)" by simp
  then have "(119 - r) mod 64 = (55 - r) mod 64" by (simp only: mod_add_self1)
  also have "\<dots> = 55 - r" by simp
  finally show ?thesis using True by simp
next
  case False
  with assms have "(119 - r) mod 64 = 119 - r" by simp
  then show ?thesis using False assms by simp
qed

lemma length_pad: "64 dvd length (pad m)"
proof -
  have "length (pad m) = length m + (9 + (119 - length m mod 64) mod 64)"
    by (simp add: pad_def)
  moreover have "(length m + (9 + (119 - length m mod 64) mod 64)) mod 64 =
      (length m mod 64 + (9 + (119 - length m mod 64) mod 64)) mod 64"
    by (rule mod_add_left_eq[symmetric])
  moreover have "(length m mod 64 + (9 + (119 - length m mod 64) mod 64)) mod 64 = 0"
    by (rule pad_zeros) simp
  ultimately have "length (pad m) mod 64 = 0"
    by (simp only:)
  then show ?thesis
    by (simp only: dvd_eq_mod_eq_0)
qed

lemma encode_utf8_append: "encode_utf8 (a @ b) = encode_utf8 a @ encode_utf8 b"
  by (simp add: encode_utf8_def)

section \<open>Two MACs computed\<close>

text \<open>
  The compression function on the six blocks that the two HMACs below go through: the
  inner and the outer key block of the key \<^verbatim>\<open>S\<close>, then the message block and the
  digest block of each message.
\<close>

lemmas sha256_eval = K256_def rotr_def not32_def Ch_def Maj_def Sigma0_def Sigma1_def
  sigma0_def sigma1_def next_w_def

lemma replicate_numeral_eval: "replicate (numeral n) x = x # replicate (pred_numeral n) x"
  by (simp add: numeral_eq_Suc)

lemmas hmac_eval = upper_def upper_char_def hexdigest_def hex_lower_def
  sha256_def pad_def chunks.simps compress_def be32_def bytes_of_word_def
  encode_utf8_def H256_def replicate_numeral_eval

lemma rounds_ipad_S:
  "rounds K256
     [1698051638, 909522486, 909522486, 909522486, 909522486, 909522486, 909522486,
      909522486, 909522486, 909522486, 909522486, 909522486, 909522486, 909522486,
      909522486, 909522486]
     [1779033703, 3144134277, 1013904242, 2773480762, 1359893119, 2600822924, 528734635,
      1541459225] =
     [356724731, 2004868519, 390158465, 1017809036, 2054274745, 4121533123, 1939445660,
      2535454201]"
  by (simp add: sha256_eval)

lemma rounds_inner_pruned:
  "rounds K256
     [1144086830, 1652236920, 574239101, 2147483648, 0, 0, 0, 0, 0, 0, 0, 0, 0, 0, 0, 608]
     [2135758434, 854035500, 1404062707, 3791289798, 3414167864, 2427388751, 2468180295,
      4076913426] =
     [669706141, 2520036232, 2903300757, 582587069, 4136942338, 3218998296, 1958788571,
      1511452072]"
  by (simp add: sha256_eval)

lemma rounds_opad_S:
  "rounds K256
     [257711196, 1549556828, 1549556828, 1549556828, 1549556828, 1549556828, 1549556828,
      1549556828, 1549556828, 1549556828, 1549556828, 1549556828, 1549556828, 1549556828,
      1549556828, 1549556828]
     [1779033703, 3144134277, 1013904242, 2773480762, 1359893119, 2600822924, 528734635,
      1541459225] =
     [151335651, 1760219088, 2255266447, 3371780714, 649557192, 4291737819, 4251486015,
      727562265]"
  by (simp add: sha256_eval)

lemma rounds_outer_pruned:
  "rounds K256
     [2805464575, 3374071732, 12396168, 78909571, 3256142906, 1351419751, 132001570,
      1293398202, 2147483648, 0, 0, 0, 0, 0, 0, 768]
     [1930369354, 609386069, 3269170689, 1850294180, 2009450311, 2597593447, 485253354,
      2269021490] =
     [3822267986, 2240806961, 809903335, 3340303913, 378885152, 4002484064, 1293436033,
      1440665612]"
  by (simp add: sha256_eval)

lemma rounds_inner_sorted:
  "rounds K256
     [1144086830, 1652236920, 574239020, 578363962, 1532853632, 0, 0, 0, 0, 0, 0, 0, 0,
      0, 0, 664]
     [2135758434, 854035500, 1404062707, 3791289798, 3414167864, 2427388751, 2468180295,
      4076913426] =
     [2333977673, 45235654, 1948802453, 2692450819, 2837465805, 176668594, 3829415484,
      850239212]"
  by (simp add: sha256_eval)

lemma rounds_outer_sorted:
  "rounds K256
     [174768811, 899271154, 3352865160, 2188773321, 1956666373, 2604057345, 2002628483,
      632185342, 2147483648, 0, 0, 0, 0, 0, 0, 768]
     [1930369354, 609386069, 3269170689, 1850294180, 2009450311, 2597593447, 485253354,
      2269021490] =
     [1095276932, 3420052071, 621239750, 671158621, 1319765827, 766287083, 4236188464,
      3536856626]"
  by (simp add: sha256_eval)

lemma hmac_S_pruned: \<open>hmac_sha256 ''S'' ''D1a.b{"x":1}'' =
    ''56E2479CA9E27E86F321BAE835623DCD8E5B1B67896530C76A04A56BDD1D553E''\<close>
  unfolding hmac_sha256_def hmac_new_def Let_def
  by (simp add: hmac_eval rounds_ipad_S rounds_opad_S rounds_inner_pruned rounds_outer_pruned)

lemma hmac_S_sorted: \<open>hmac_sha256 ''S'' ''D1a.b{"x":1,"y":[]}'' =
    ''B457B2CEF02C58BCE7E2F3C7964A5101C66FCE8AC880BE52196B7C1A5A0EAB64''\<close>
  unfolding hmac_sha256_def hmac_new_def Let_def
  by (simp add: hmac_eval rounds_ipad_S rounds_opad_S rounds_inner_sorted rounds_outer_sorted)


lemmas dumps_eval = encode_basestring_def escape_char_def str_int_def str_nat.simps digit_char_def

lemma canonical_pruned:
  \<open>value_to_json_chromium (JDict [(''x'', JInt 1), (''y'', JList [])]) = ''{"x":1}''\<close>
  by (simp add: dumps_eval)

lemma canonical_sorted:
  \<open>json_dumps ('','', '':'') (sort_dict_recursive (JDict [(''x'', JInt 1), (''y'', JList [])])) =
    ''{"x":1,"y":[]}''\<close>
  by (simp add: dumps_eval)

section \<open>Properties of the MAC\<close>

text \<open>
  C1. For every secret, device id, path and canonical string, the MAC is the HMAC-SHA256,
  keyed by the bytes of the secret, of the bytes of device id, path and canonical string in
  this order; the digest has all its 32 bytes and is printed as 64 characters, each an
  uppercase hexadecimal digit. \<open>calculate_mac\<close> is this MAC for the canonical string of
  its value.
\<close>

theorem compute_mac_is_hmac_sha256:
  "hmac_sha256 secret (device_id @ path @ canonical) =
     upper (hexdigest (hmac_new (encode_utf8 secret)
       (encode_utf8 device_id @ encode_utf8 path @ encode_utf8 canonical)))
   \<and> length (hmac_new (encode_utf8 secret)
       (encode_utf8 device_id @ encode_utf8 path @ encode_utf8 canonical)) = 32
   \<and> length (hmac_sha256 secret (device_id @ path @ canonical)) = 64
   \<and> set (hmac_sha256 secret (device_id @ path @ canonical)) \<subseteq> set ''0123456789ABCDEF''
   \<and> calculate_mac secret device_id path v =
       hmac_sha256 secret (device_id @ path @ value_to_json_chromium v)"
proof (intro conjI)
  show "hmac_sha256 secret (device_id @ path @ canonical) =
     upper (hexdigest (hmac_new (encode_utf8 secret)
       (encode_utf8 device_id @ encode_utf8 path @ encode_utf8 canonical)))"
    by (simp add: hmac_sha256_def encode_utf8_append)
  show "length (hmac_new (encode_utf8 secret)
       (encode_utf8 device_id @ encode_utf8 path @ encode_utf8 canonical)) = 32"
    by (rule length_hmac_new)
  show "length (hmac_sha256 secret (device_id @ path @ canonical)) = 64"
    by (rule length_hmac_sha256)
  show "set (hmac_sha256 secret (device_id @ path @ canonical)) \<subseteq> set ''0123456789ABCDEF''"
    by (rule subsetI) (rule hmac_sha256_chars)
  show "calculate_mac secret device_id path v =
       hmac_sha256 secret (device_id @ path @ value_to_json_chromium v)"
    by (simp add: calculate_mac_def)
qed

text \<open>
  C2. With secret \<^verbatim>\<open>S\<close>, device id \<^verbatim>\<open>D1\<close>, path \<^verbatim>\<open>a.b\<close> and the value
  \<^verbatim>\<open>{"x": 1, "y": []}\<close>, the canonical string is \<^verbatim>\<open>{"x":1}\<close> (the item under \<^verbatim>\<open>y\<close> is
  dropped) and the MAC is the HMAC-SHA256 of \<^verbatim>\<open>D1a.b{"x":1}\<close> under the key \<^verbatim>\<open>S\<close> in
  uppercase hexadecimal, which is the digest written out in the last line.
\<close>

theorem scenario_pruned_mac:
  \<open>value_to_json_chromium (JDict [(''x'', JInt 1), (''y'', JList [])]) = ''{"x":1}''
   \<and> calculate_mac ''S'' ''D1'' ''a.b'' (JDict [(''x'', JInt 1), (''y'', JList [])]) =
       hmac_sha256 ''S'' ''D1a.b{"x":1}''
   \<and> calculate_mac ''S'' ''D1'' ''a.b'' (JDict [(''x'', JInt 1), (''y'', JList [])]) =
       ''56E2479CA9E27E86F321BAE835623DCD8E5B1B67896530C76A04A56BDD1D553E''\<close>
  unfolding calculate_mac_def Let_def canonical_pruned
  by (simp add: hmac_S_pruned)

section \<open>Properties of the canonical form\<close>

lemma fst_comp_item: "fst \<circ> (\<lambda>(k, v). (k, g v)) = fst"
  by (auto simp: fun_eq_iff)

lemma sorted_pruned_items:
  "sorted (map fst (filter P (map (\<lambda>(k, v). (k, g v)) (sort_key fst kvs))))"
  by (rule sorted_filter) (simp add: fst_comp_item)

text \<open>
  The dict case of \<open>prune_empty_recursive\<close> in the shape of the source, for a dict (each
  key once): the keys are sorted, and for each key \<^verbatim>\<open>obj[k]\<close> is read and pruned.
\<close>

lemma map_fst_insort_key: "map fst (insort_key fst x xs) = insort (fst x) (map fst xs)"
  by (induction xs) auto

lemma map_fst_sort_key: "map fst (sort_key fst xs) = sort (map fst xs)"
  by (induction xs) (auto simp: map_fst_insort_key)

lemma sort_key_as_lookups:
  assumes "distinct (map fst kvs)"
  shows "sort_key fst kvs = map (\<lambda>k. (k, dict_get kvs k)) (sort (map fst kvs))"
proof -
  have "map (\<lambda>k. (k, dict_get kvs k)) (sort (map fst kvs)) =
      map (\<lambda>e. (fst e, dict_get kvs (fst e))) (sort_key fst kvs)"
    by (simp add: map_fst_sort_key[symmetric] comp_def)
  also have "\<dots> = map (\<lambda>e. e) (sort_key fst kvs)"
  proof (rule map_cong[OF refl])
    fix e assume "e \<in> set (sort_key fst kvs)"
    then have "(fst e, snd e) \<in> set kvs" by simp
    with assms have "map_of kvs (fst e) = Some (snd e)" by (rule map_of_is_SomeI)
    then show "(fst e, dict_get kvs (fst e)) = e"
      by (simp add: dict_get_def)
  qed
  finally show ?thesis by simp
qed

lemma prune_dict_as_written:
  assumes "distinct (map fst kvs)"
  shows "prune_empty_recursive (JDict kvs) =
     JDict (filter (\<lambda>(k, v). \<not> is_empty_container v)
              (map (\<lambda>k. (k, prune_empty_recursive (dict_get kvs k))) (sort (map fst kvs))))"
  by (simp add: sort_key_as_lookups[OF assms] comp_def)

text \<open>
  C3. Pruning a dict keeps exactly the items whose pruned value is not an empty dict or
  list, so an item that is empty, or becomes empty once its own children are pruned, is
  gone. Pruning a list keeps every position: each element is pruned in place, and an
  element that is an empty dict or list stays as it is.
\<close>

theorem pruning_asymmetry:
  "(\<exists>kvs'. prune_empty_recursive (JDict kvs) = JDict kvs'
      \<and> (\<forall>k v. (k, v) \<in> set kvs' \<longleftrightarrow>
            (\<exists>u. (k, u) \<in> set kvs \<and> v = prune_empty_recursive u
                 \<and> \<not> is_empty_container (prune_empty_recursive u))))
   \<and> (\<exists>ys. prune_empty_recursive (JList xs) = JList ys
      \<and> length ys = length xs
      \<and> (\<forall>i < length xs. ys ! i = prune_empty_recursive (xs ! i))
      \<and> (\<forall>i < length xs. is_empty_container (xs ! i) \<longrightarrow> ys ! i = xs ! i))"
proof (intro conjI)
  show "\<exists>kvs'. prune_empty_recursive (JDict kvs) = JDict kvs'
      \<and> (\<forall>k v. (k, v) \<in> set kvs' \<longleftrightarrow>
            (\<exists>u. (k, u) \<in> set kvs \<and> v = prune_empty_recursive u
                 \<and> \<not> is_empty_container (prune_empty_recursive u)))"
    by auto
  have e: "is_empty_container x \<Longrightarrow> prune_empty_recursive x = x" for x
    by (cases x) simp_all
  show "\<exists>ys. prune_empty_recursive (JList xs) = JList ys
      \<and> length ys = length xs
      \<and> (\<forall>i < length xs. ys ! i = prune_empty_recursive (xs ! i))
      \<and> (\<forall>i < length xs. is_empty_container (xs ! i) \<longrightarrow> ys ! i = xs ! i)"
    by (simp add: e)
qed

text \<open>
  The same on \<^verbatim>\<open>{"y": [], "a": {"q": []}, "x": 1}\<close>, where \<^verbatim>\<open>a\<close> becomes empty only after
  its child is pruned, and on the list \<^verbatim>\<open>[{}, [], {"q": []}]\<close>.
\<close>

theorem pruning_asymmetry_witness:
  \<open>prune_empty_recursive
      (JDict [(''y'', JList []), (''a'', JDict [(''q'', JList [])]), (''x'', JInt 1)]) =
      JDict [(''x'', JInt 1)]
   \<and> prune_empty_recursive (JList [JDict [], JList [], JDict [(''q'', JList [])]]) =
      JList [JDict [], JList [], JDict []]
   \<and> value_to_json_chromium (JList [JDict [], JList [], JDict [(''q'', JList [])]]) =
      ''[{},[],{}]''\<close>
  using pruning_asymmetry
    [of "[(''y'', JList []), (''a'', JDict [(''q'', JList [])]), (''x'', JInt 1)]"
        "[JDict [], JList [], JDict [(''q'', JList [])]]"]
  by simp

text \<open>
  C8. At the top level \<^verbatim>\<open>None\<close> becomes the empty string, a bool becomes \<^verbatim>\<open>true\<close> or
  \<^verbatim>\<open>false\<close> without quotes, and the empty list becomes \<^verbatim>\<open>[]\<close>, not the empty string.
  \<open>value_to_json_chromium\<close> has no policy argument, so this holds whatever the policy.
\<close>

theorem leaf_bypass:
  "value_to_json_chromium JNull = ''''
   \<and> value_to_json_chromium (JBool True) = ''true''
   \<and> value_to_json_chromium (JBool False) = ''false''
   \<and> value_to_json_chromium (JList []) = ''[]''
   \<and> value_to_json_chromium (JList []) \<noteq> ''''"
  by simp

text \<open>
  C10. Pruning a pruned value changes nothing: the items are already in key order, every
  value is already pruned, and no item is an empty dict or list.
\<close>

theorem prune_idempotent:
  "prune_empty_recursive (prune_empty_recursive v) = prune_empty_recursive v"
proof (induction v rule: prune_empty_recursive.induct)
  case (1 kvs)
  let ?f = "\<lambda>(k, v). (k, prune_empty_recursive v)"
  let ?P = "\<lambda>(k, v). \<not> is_empty_container v"
  let ?E = "filter ?P (map ?f (sort_key fst kvs))"
  have srt: "sort_key fst ?E = ?E"
    by (rule sort_key_id_if_sorted) (rule sorted_pruned_items)
  have same: "map ?f ?E = ?E"
  proof (rule map_idI)
    fix e assume "e \<in> set ?E"
    then obtain k v where kv: "(k, v) \<in> set (sort_key fst kvs)"
      and e: "e = (k, prune_empty_recursive v)"
      by auto
    from "1.IH"[OF kv] show "?f e = e"
      by (simp add: e)
  qed
  have keep: "filter ?P ?E = ?E"
    by simp
  show ?case
    by (simp only: prune_empty_recursive.simps srt same keep)
next
  case (2 xs)
  then show ?case by (simp cong: map_cong)
qed simp_all

section \<open>Properties of path resolution\<close>

lemma walk_parts_JNull: "walk_parts JNull parts = JNull"
  by (cases parts) simp_all

lemma walk_parts_lookup:
  "walk_parts v parts = (case lookup_path v parts of None \<Rightarrow> JNull | Some u \<Rightarrow> u)"
  by (induction v parts rule: lookup_path.induct)
     (auto simp: dict_get_def walk_parts_JNull split: option.splits)

text \<open>
  C4, as the claim has it, fails: the path \<^verbatim>\<open>a\<close> does not resolve in \<^verbatim>\<open>{}\<close> and resolves to
  \<^verbatim>\<open>None\<close> in \<^verbatim>\<open>{"a": null}\<close>, and \<open>get_value_at_path\<close> returns the same value for both.
\<close>

theorem absent_conflated_with_null:
  "lookup_path (JDict []) (str_split CHR ''.'' ''a'') = None
   \<and> lookup_path (JDict [(''a'', JNull)]) (str_split CHR ''.'' ''a'') = Some JNull
   \<and> get_value_at_path (JDict []) ''a'' = get_value_at_path (JDict [(''a'', JNull)]) ''a''"
  by (simp add: get_value_at_path_def dict_get_def)

text \<open>
  C4, amended. For every snapshot and path, \<open>get_value_at_path\<close> returns the value the
  path resolves to, and \<^verbatim>\<open>None\<close> when a segment is missing or an intermediate value is not
  a dict: an unresolved path gives the same result as a path whose value is \<^verbatim>\<open>None\<close>.
\<close>

theorem get_value_at_path_lookup:
  "get_value_at_path obj path =
     (case lookup_path obj (str_split CHR ''.'' path) of None \<Rightarrow> JNull | Some v \<Rightarrow> v)"
  unfolding get_value_at_path_def by (rule walk_parts_lookup)

text \<open>
  C9, as the claim has it, fails: for the empty path \<open>get_value_at_path\<close> returns the
  value stored under the empty key, and \<open>calculate_mac\<close> returns a MAC of 64 characters.
\<close>

theorem empty_path_not_rejected:
  "get_value_at_path (JDict [('''', JInt 7)]) '''' = JInt 7
   \<and> length (calculate_mac ''S'' ''D1'' '''' (JInt 7)) = 64"
  by (simp add: get_value_at_path_def dict_get_def calculate_mac_def length_hmac_sha256)

text \<open>
  C9, amended. The empty path is not rejected: it splits into the single empty segment, so
  path resolution looks the empty key up in the top-level dict (\<^verbatim>\<open>None\<close> when the key is
  missing or the snapshot is not a dict), and the MAC is the HMAC over the device id
  followed by the canonical string, 64 characters as for any other path.
\<close>

theorem empty_path_is_one_empty_segment:
  "get_value_at_path obj '''' = (case obj of JDict kvs \<Rightarrow> dict_get kvs '''' | _ \<Rightarrow> JNull)
   \<and> calculate_mac seed device_id '''' v = hmac_sha256 seed (device_id @ value_to_json_chromium v)
   \<and> length (calculate_mac seed device_id '''' v) = 64"
  by (simp add: get_value_at_path_def calculate_mac_def length_hmac_sha256 split: json.splits)

section \<open>Key order\<close>

lemma filter_key_distinct:
  "distinct (map fst xs) \<Longrightarrow>
   filter (\<lambda>x. fst x = c) xs = (case map_of xs c of None \<Rightarrow> [] | Some v \<Rightarrow> [(c, v)])"
proof (induction xs)
  case Nil
  then show ?case by simp
next
  case (Cons x xs)
  obtain k v where x: "x = (k, v)" by (cases x)
  show ?case
  proof (cases "k = c")
    case True
    with Cons.prems x have "c \<notin> fst ` set xs" by simp
    then have "filter (\<lambda>x. fst x = c) xs = []"
      by (auto simp: filter_empty_conv)
    with True x show ?thesis by simp
  next
    case False
    with Cons x show ?thesis by simp
  qed
qed

text \<open>Two orders of the same items, each key once, sort to the same list.\<close>

lemma sort_key_perm:
  assumes "distinct (map fst xs)" and "mset xs = mset ys"
  shows "sort_key fst xs = sort_key fst ys"
proof (rule properties_for_sort_key)
  show "mset (sort_key fst ys) = mset xs"
    using assms(2) by simp
  show "sorted (map fst (sort_key fst ys))"
    by simp
  have dy: "distinct (map fst ys)"
    using assms by (metis distinct_map mset_eq_setD mset_map mset_eq_imp_distinct_iff)
  have "set xs = set ys"
    using assms(2) by (rule mset_eq_setD)
  with assms(1) dy have mo: "map_of xs = map_of ys"
    by (simp add: map_of_inject_set)
  fix k assume "k \<in> set (sort_key fst ys)"
  have "filter (\<lambda>x. fst k = fst x) (sort_key fst ys) =
      filter (\<lambda>x. fst x = fst k) (sort_key fst ys)"
    by (rule filter_cong) auto
  also have "\<dots> = filter (\<lambda>x. fst x = fst k) ys"
    by (rule sort_key_stable)
  also have "\<dots> = filter (\<lambda>x. fst x = fst k) xs"
    by (simp only: filter_key_distinct[OF dy] filter_key_distinct[OF assms(1)] mo)
  also have "\<dots> = filter (\<lambda>x. fst k = fst x) xs"
    by (rule filter_cong) auto
  finally show "filter (\<lambda>x. fst k = fst x) (sort_key fst ys) =
      filter (\<lambda>x. fst k = fst x) xs" .
qed

text \<open>
  C7. Two dicts with the same items in different insertion orders have the same canonical
  string, both for \<open>value_to_json_chromium\<close> and for \<^verbatim>\<open>json.dumps\<close> after
  \<open>sort_dict_recursive\<close>, whatever the separators. Without the sorting, \<^verbatim>\<open>json.dumps\<close>
  prints \<^verbatim>\<open>{"a":1,"b":2}\<close> and \<^verbatim>\<open>{"b":2,"a":1}\<close> differently.
\<close>

theorem key_order_independence:
  assumes "distinct (map fst m1)" and "mset m1 = mset m2"
  shows "value_to_json_chromium (JDict m1) = value_to_json_chromium (JDict m2)
     \<and> json_dumps seps (sort_dict_recursive (JDict m1)) =
       json_dumps seps (sort_dict_recursive (JDict m2))
     \<and> json_dumps ('','', '':'') (JDict [(''a'', JInt 1), (''b'', JInt 2)]) \<noteq>
       json_dumps ('','', '':'') (JDict [(''b'', JInt 2), (''a'', JInt 1)])"
proof (intro conjI)
  have s: "sort_key fst m1 = sort_key fst m2"
    using assms by (rule sort_key_perm)
  show "value_to_json_chromium (JDict m1) = value_to_json_chromium (JDict m2)"
    by (simp only: value_to_json_chromium.simps prune_empty_recursive.simps s)
  let ?g = "\<lambda>(k, v). (k, sort_dict_recursive v)"
  have "distinct (map fst (map ?g m1))"
    using assms(1) by (simp add: fst_comp_item)
  moreover have "mset (map ?g m1) = mset (map ?g m2)"
    using assms(2) by (metis mset_map)
  ultimately have "sort_key fst (map ?g m1) = sort_key fst (map ?g m2)"
    by (rule sort_key_perm)
  then show "json_dumps seps (sort_dict_recursive (JDict m1)) =
       json_dumps seps (sort_dict_recursive (JDict m2))"
    by (simp only: sort_dict_recursive.simps)
  show "json_dumps ('','', '':'') (JDict [(''a'', JInt 1), (''b'', JInt 2)]) \<noteq>
       json_dumps ('','', '':'') (JDict [(''b'', JInt 2), (''a'', JInt 1)])"
    by (simp add: encode_basestring_def escape_char_def)
qed

text \<open>The two dicts of the scenario, sorted: both give \<^verbatim>\<open>{"a":1,"b":2}\<close>.\<close>

theorem key_order_independence_witness:
  \<open>distinct (map fst [(''a'', JInt 1), (''b'', JInt 2)])
   \<and> mset [(''a'', JInt 1), (''b'', JInt 2)] = mset [(''b'', JInt 2), (''a'', JInt 1)]
   \<and> value_to_json_chromium (JDict [(''a'', JInt 1), (''b'', JInt 2)]) =
       value_to_json_chromium (JDict [(''b'', JInt 2), (''a'', JInt 1)])
   \<and> value_to_json_chromium (JDict [(''b'', JInt 2), (''a'', JInt 1)]) = ''{"a":1,"b":2}''\<close>
proof -
  have d: "distinct (map fst [(''a'', JInt 1), (''b'', JInt 2)])"
    by simp
  have m: "mset [(''a'', JInt 1), (''b'', JInt 2)] = mset [(''b'', JInt 2), (''a'', JInt 1)]"
    by (simp add: add_mset_commute)
  have c: \<open>value_to_json_chromium (JDict [(''b'', JInt 2), (''a'', JInt 1)]) = ''{"a":1,"b":2}''\<close>
    by (simp add: dumps_eval)
  from key_order_independence[OF d m] d m c show ?thesis
    by (intro conjI) (rule d, rule m, blast, rule c)
qed

section \<open>The search script against the verifier\<close>

lemma insort_key_map_items:
  "insort_key fst (k, g v) (map (\<lambda>(k, v). (k, g v)) xs) =
   map (\<lambda>(k, v). (k, g v)) (insort_key fst (k, v) xs)"
  by (induction xs) auto

lemma sort_key_map_items:
  "sort_key fst (map (\<lambda>(k, v). (k, g v)) kvs) = map (\<lambda>(k, v). (k, g v)) (sort_key fst kvs)"
  by (induction kvs) (auto simp: insort_key_map_items)

lemma is_empty_sort_dict: "is_empty_container (sort_dict_recursive v) = is_empty_container v"
  by (cases v) simp_all

text \<open>Where there is nothing to prune, pruning is sorting.\<close>

lemma prune_eq_sort:
  "no_empty_entry v \<Longrightarrow> prune_empty_recursive v = sort_dict_recursive v"
proof (induction v rule: prune_empty_recursive.induct)
  case (1 kvs)
  let ?f = "\<lambda>(k, v). (k, prune_empty_recursive v)"
  let ?g = "\<lambda>(k, v). (k, sort_dict_recursive v)"
  let ?P = "\<lambda>(k, v). \<not> is_empty_container v"
  from "1.prems"
  have ne: "\<And>k v. (k, v) \<in> set kvs \<Longrightarrow> \<not> is_empty_container v \<and> no_empty_entry v"
    by (auto simp: list_all_iff)
  have fg: "map ?f (sort_key fst kvs) = map ?g (sort_key fst kvs)"
  proof (rule map_cong[OF refl])
    fix e assume e: "e \<in> set (sort_key fst kvs)"
    obtain k v where kv: "e = (k, v)" by (cases e)
    from e kv have "(k, v) \<in> set kvs" by simp
    with "1.IH"[OF e kv[symmetric]] ne[of k v] kv show "?f e = ?g e" by simp
  qed
  have keep: "filter ?P (map ?g (sort_key fst kvs)) = map ?g (sort_key fst kvs)"
    using ne by (auto simp: filter_id_conv is_empty_sort_dict)
  show ?case
    by (simp only: prune_empty_recursive.simps sort_dict_recursive.simps fg keep
        sort_key_map_items)
next
  case (2 xs)
  then show ?case by (simp add: list_all_iff cong: map_cong)
qed simp_all

lemma value_to_json_chromium_list:
  "value_to_json_chromium (JList xs) = json_dumps ('','', '':'') (prune_empty_recursive (JList xs))"
  by (cases xs) simp_all

text \<open>
  C5, as the claim has it, fails. For \<^verbatim>\<open>{"x": 1, "y": []}\<close> the search script hashes
  \<^verbatim>\<open>{"x":1,"y":[]}\<close> and the verifier \<^verbatim>\<open>{"x":1}\<close>, and the two MACs differ; for \<^verbatim>\<open>None\<close> the
  search script would hash \<^verbatim>\<open>null\<close> and the verifier the empty string.
\<close>

theorem calc_mac_skips_pruning:
  \<open>calc_mac ''S'' ''D1'' ''a.b'' (JDict [(''x'', JInt 1), (''y'', JList [])]) \<noteq>
     calculate_mac ''S'' ''D1'' ''a.b'' (JDict [(''x'', JInt 1), (''y'', JList [])])
   \<and> json_dumps ('','', '':'') (sort_dict_recursive JNull) \<noteq> value_to_json_chromium JNull\<close>
proof -
  have a: \<open>calc_mac ''S'' ''D1'' ''a.b'' (JDict [(''x'', JInt 1), (''y'', JList [])]) =
      ''B457B2CEF02C58BCE7E2F3C7964A5101C66FCE8AC880BE52196B7C1A5A0EAB64''\<close>
    unfolding calc_mac_def Let_def canonical_sorted by (simp add: hmac_S_sorted)
  have b: \<open>calculate_mac ''S'' ''D1'' ''a.b'' (JDict [(''x'', JInt 1), (''y'', JList [])]) =
      ''56E2479CA9E27E86F321BAE835623DCD8E5B1B67896530C76A04A56BDD1D553E''\<close>
    unfolding calculate_mac_def Let_def canonical_pruned by (simp add: hmac_S_pruned)
  show ?thesis
    unfolding a b by simp
qed

text \<open>
  C5, amended. \<open>calc_mac\<close> sorts the keys and prints compact JSON; it neither prunes nor
  applies the top-level rules. It gives the verifier's MAC for every value in which no
  dict item holds an empty dict or list (so that there is nothing to prune), \<^verbatim>\<open>None\<close>
  and the floats \<^verbatim>\<open>nan\<close>, \<^verbatim>\<open>inf\<close>, \<^verbatim>\<open>-inf\<close> at the top level apart.
\<close>

theorem calc_mac_agrees_when_nothing_to_prune:
  assumes "no_empty_entry v" and "v \<noteq> JNull" and "\<forall>r. v = JFloat r \<longrightarrow> floatstr r = r"
  shows "calc_mac seed device_id path v = calculate_mac seed device_id path v"
proof -
  have eq: "sort_dict_recursive v = prune_empty_recursive v"
    using assms(1) by (rule prune_eq_sort[symmetric])
  have "json_dumps ('','', '':'') (sort_dict_recursive v) = value_to_json_chromium v"
  proof (cases v)
    case (JList xs)
    show ?thesis
      unfolding eq unfolding JList by (rule value_to_json_chromium_list[symmetric])
  next
    case (JDict kvs)
    show ?thesis
      unfolding eq unfolding JDict by simp
  qed (use assms in simp_all)
  then show ?thesis
    by (simp add: calc_mac_def calculate_mac_def)
qed

text \<open>
  On \<^verbatim>\<open>{"b": 2, "a": [{}]}\<close>: the empty dict is a list element, not a dict item, so there
  is nothing to prune; both scripts hash \<^verbatim>\<open>{"a":[{}],"b":2}\<close>.
\<close>

theorem calc_mac_agrees_witness:
  \<open>no_empty_entry (JDict [(''b'', JInt 2), (''a'', JList [JDict []])])
   \<and> json_dumps ('','', '':'')
       (sort_dict_recursive (JDict [(''b'', JInt 2), (''a'', JList [JDict []])])) =
       ''{"a":[{}],"b":2}''
   \<and> calc_mac ''S'' ''D1'' ''a.b'' (JDict [(''b'', JInt 2), (''a'', JList [JDict []])]) =
       calculate_mac ''S'' ''D1'' ''a.b'' (JDict [(''b'', JInt 2), (''a'', JList [JDict []])])\<close>
proof -
  have n: "no_empty_entry (JDict [(''b'', JInt 2), (''a'', JList [JDict []])])"
    by simp
  have c: \<open>json_dumps ('','', '':'')
       (sort_dict_recursive (JDict [(''b'', JInt 2), (''a'', JList [JDict []])])) =
       ''{"a":[{}],"b":2}''\<close>
    by (simp add: dumps_eval)
  have "calc_mac ''S'' ''D1'' ''a.b'' (JDict [(''b'', JInt 2), (''a'', JList [JDict []])]) =
       calculate_mac ''S'' ''D1'' ''a.b'' (JDict [(''b'', JInt 2), (''a'', JList [JDict []])])"
    by (rule calc_mac_agrees_when_nothing_to_prune[OF n]) simp_all
  with n c show ?thesis
    by (intro conjI)
qed

section \<open>The comparison with the expected MAC\<close>

lemma upper_upper_table:
  "map upper_char ''0123456789ABCDEF'' = map (\<lambda>c. c) ''0123456789ABCDEF''"
  by (simp add: upper_char_def)

lemma upper_char_upper_hex: "c \<in> set ''0123456789ABCDEF'' \<Longrightarrow> upper_char c = c"
  using upper_upper_table[unfolded map_eq_conv] by (rule bspec)

lemma upper_hmac_sha256: "upper (hmac_sha256 key message) = hmac_sha256 key message"
  unfolding upper_def
  by (rule map_idI) (rule upper_char_upper_hex, rule hmac_sha256_chars)

text \<open>
  C6, as the claim has it, fails. The expected MAC of the scenario of C2, written in
  lowercase, is the computed MAC as a hexadecimal value, and the record is reported as a
  failure.
\<close>

theorem lowercase_expected_mac_fails:
  \<open>upper ''56e2479ca9e27e86f321bae835623dcd8e5b1b67896530c76a04a56bdd1d553e'' =
     calculate_mac ''S'' ''D1'' ''a.b''
       (get_value_at_path (JDict [(''a'', JDict [(''b'', JDict [(''x'', JInt 1), (''y'', JList [])])])])
          ''a.b'')
   \<and> \<not> main_check ''S'' ''D1''
         (JDict [(''a'', JDict [(''b'', JDict [(''x'', JInt 1), (''y'', JList [])])])])
         ''a.b'' ''56e2479ca9e27e86f321bae835623dcd8e5b1b67896530c76a04a56bdd1d553e''\<close>
proof -
  have g: "get_value_at_path
      (JDict [(''a'', JDict [(''b'', JDict [(''x'', JInt 1), (''y'', JList [])])])]) ''a.b'' =
      JDict [(''x'', JInt 1), (''y'', JList [])]"
    by (simp add: get_value_at_path_def dict_get_def)
  have b: \<open>calculate_mac ''S'' ''D1'' ''a.b'' (JDict [(''x'', JInt 1), (''y'', JList [])]) =
      ''56E2479CA9E27E86F321BAE835623DCD8E5B1B67896530C76A04A56BDD1D553E''\<close>
    unfolding calculate_mac_def Let_def canonical_pruned by (simp add: hmac_S_pruned)
  show ?thesis
    unfolding main_check_def Let_def g b by (simp add: upper_def upper_char_def)
qed

text \<open>
  C6, amended. A record is reported as a match exactly when its expected MAC is, character
  for character, the computed MAC, which is in uppercase: an expected MAC with a lowercase
  letter is reported as a failure, whatever its hexadecimal value.
\<close>

theorem main_check_exact_comparison:
  "main_check seed device_id secure_prefs path expected_mac =
     (expected_mac = calculate_mac seed device_id path (get_value_at_path secure_prefs path))
   \<and> (upper expected_mac \<noteq> expected_mac \<longrightarrow>
        \<not> main_check seed device_id secure_prefs path expected_mac)"
proof -
  have "upper (calculate_mac seed device_id path (get_value_at_path secure_prefs path)) =
      calculate_mac seed device_id path (get_value_at_path secure_prefs path)"
    by (simp add: calculate_mac_def upper_hmac_sha256)
  then show ?thesis
    by (auto simp: main_check_def)
qed

text \<open>An expected MAC in lowercase, for any seed, device id, snapshot and path.\<close>

theorem main_check_exact_comparison_witness:
  \<open>upper ''56e2479ca9e27e86f321bae835623dcd8e5b1b67896530c76a04a56bdd1d553e'' \<noteq>
     ''56e2479ca9e27e86f321bae835623dcd8e5b1b67896530c76a04a56bdd1d553e''
   \<and> \<not> main_check '''' ''D1'' (JDict []) ''a.b''
         ''56e2479ca9e27e86f321bae835623dcd8e5b1b67896530c76a04a56bdd1d553e''\<close>
proof -
  have u: \<open>upper ''56e2479ca9e27e86f321bae835623dcd8e5b1b67896530c76a04a56bdd1d553e'' \<noteq>
     ''56e2479ca9e27e86f321bae835623dcd8e5b1b67896530c76a04a56bdd1d553e''\<close>
    by (simp add: upper_def upper_char_def)
  from main_check_exact_comparison
    [of "''''" "''D1''" "JDict []" "''a.b''"
        "''56e2479ca9e27e86f321bae835623dcd8e5b1b67896530c76a04a56bdd1d553e''"] u
  show ?thesis
    by blast
qed

end
